theory Spec2Isabelle
  imports Main
begin

section \<open>Strings of the source language\<close>

text \<open>
  A Python \<open>str\<close> is a sequence of Unicode code points; it is modelled as the list of
  its code points. The string operations the program calls (\<open>strip\<close>, \<open>split\<close>,
  \<open>join\<close>, \<open>in\<close>) are written out below. \<open>str.lower\<close> depends on the
  Unicode case tables, which are not part of the program: every function that lowercases
  takes the lowering function as its first argument \<open>lower\<close>.
\<close>

type_synonym str = "nat list"

text \<open>The code points for which \<open>str.isspace\<close> holds; \<open>strip()\<close> and
  \<open>split()\<close> without arguments use exactly this set.\<close>

definition isspace :: "nat \<Rightarrow> bool" where
  "isspace c \<longleftrightarrow>
     (9 \<le> c \<and> c \<le> 13) \<or> (28 \<le> c \<and> c \<le> 32) \<or> c = 133 \<or> c = 160 \<or> c = 5760 \<or>
     (8192 \<le> c \<and> c \<le> 8202) \<or> c = 8232 \<or> c = 8233 \<or> c = 8239 \<or> c = 8287 \<or> c = 12288"

text \<open>\<open>s.strip()\<close>: leading and trailing whitespace removed.\<close>

definition strip :: "str \<Rightarrow> str" where
  "strip s = rev (dropWhile isspace (rev (dropWhile isspace s)))"

text \<open>\<open>s.split()\<close>: the maximal runs of non-whitespace, in order. \<open>cur\<close> is the word
  being read.\<close>

fun split_from :: "str \<Rightarrow> str \<Rightarrow> str list" where
  "split_from cur [] = (if cur = [] then [] else [cur])"
| "split_from cur (c # cs) =
     (if isspace c then (if cur = [] then split_from [] cs else cur # split_from [] cs)
      else split_from (cur @ [c]) cs)"

definition split :: "str \<Rightarrow> str list" where
  "split s = split_from [] s"

text \<open>\<open>s.split(sep)\<close> for a one-character separator: empty pieces are kept, and the
  empty string gives one empty piece.\<close>

fun split_sep_from :: "nat \<Rightarrow> str \<Rightarrow> str \<Rightarrow> str list" where
  "split_sep_from sep cur [] = [cur]"
| "split_sep_from sep cur (c # cs) =
     (if c = sep then cur # split_sep_from sep [] cs else split_sep_from sep (cur @ [c]) cs)"

definition split_sep :: "nat \<Rightarrow> str \<Rightarrow> str list" where
  "split_sep sep s = split_sep_from sep [] s"

text \<open>\<open>sep.join(xs)\<close>.\<close>

fun join :: "str \<Rightarrow> str list \<Rightarrow> str" where
  "join sep [] = []"
| "join sep [x] = x"
| "join sep (x # y # ys) = x @ sep @ join sep (y # ys)"

text \<open>\<open>word in text\<close>: \<open>word\<close> occurs in \<open>text\<close> as a contiguous substring.\<close>

fun str_in :: "str \<Rightarrow> str \<Rightarrow> bool" where
  "str_in word [] = (word = [])"
| "str_in word (c # cs) = (take (length word) (c # cs) = word \<or> str_in word cs)"

section \<open>The data model\<close>

text \<open>The class \<open>Book\<close>. The key \<open>id\<close> is absent until the row is stored.\<close>

record book =
  book_id :: "int option"
  title :: str
  author :: str
  tags :: "str list"

section \<open>The recommendation function\<close>

text \<open>The text searched for one book: its tags joined by one space, lowercased.\<close>

definition tags_text :: "(str \<Rightarrow> str) \<Rightarrow> book \<Rightarrow> str" where
  "tags_text lower b = lower (join [32] (tags b))"

text \<open>\<open>sum(1 for word in query_words if word in tags_text)\<close>.\<close>

definition match_score :: "(str \<Rightarrow> str) \<Rightarrow> str list \<Rightarrow> book \<Rightarrow> int" where
  "match_score lower query_words b =
     sum_list (map (\<lambda>word. 1) (filter (\<lambda>word. str_in word (tags_text lower b)) query_words))"

text \<open>One iteration of the loop over \<open>all_books\<close>; the state is the pair
  \<open>(best_book, best_match_score)\<close>.\<close>

definition loop_body ::
  "(str \<Rightarrow> str) \<Rightarrow> str list \<Rightarrow> book option \<times> int \<Rightarrow> book \<Rightarrow> book option \<times> int" where
  "loop_body lower query_words st b =
     (if tags b = [] then st
      else if match_score lower query_words b > snd st
           then (Some b, match_score lower query_words b)
           else st)"

definition recommend_book_simple :: "(str \<Rightarrow> str) \<Rightarrow> str \<Rightarrow> book list \<Rightarrow> book option" where
  "recommend_book_simple lower user_query all_books =
     (if user_query = [] \<or> strip user_query = [] then None
      else fst (foldl (loop_body lower (split (lower user_query))) (None, 0) all_books))"

text \<open>A lowering function for concrete runs: it agrees with \<open>str.lower\<close> on the code
  points below 128 and on the Cyrillic letters U+0400 to U+045F, and leaves every other
  code point as it is.\<close>

definition lower_cp :: "nat \<Rightarrow> nat" where
  "lower_cp c =
     (if 65 \<le> c \<and> c \<le> 90 then c + 32
      else if 1040 \<le> c \<and> c \<le> 1071 then c + 32
      else if 1024 \<le> c \<and> c \<le> 1039 then c + 80
      else c)"

definition lower_basic :: "str \<Rightarrow> str" where
  "lower_basic s = map lower_cp s"

section \<open>Storage and the bootstrap procedure\<close>

text \<open>
  The table of books is the list of its rows in storage order. The storage engine chooses
  the key of a row stored without one; that choice is the parameter \<open>assign_id\<close>, a
  function of the rows present. \<open>session_add\<close> is \<open>session.add(book)\<close> followed by
  the flush of the commit.
\<close>

definition session_add :: "(book list \<Rightarrow> int) \<Rightarrow> book list \<Rightarrow> book \<Rightarrow> book list" where
  "session_add assign_id rows b =
     rows @ [b\<lparr>book_id := (case book_id b of None \<Rightarrow> Some (assign_id rows) | Some k \<Rightarrow> Some k)\<rparr>]"

text \<open>\<open>session.exec(select(Book)).first()\<close>.\<close>

definition first :: "'a list \<Rightarrow> 'a option" where
  "first rows = (case rows of [] \<Rightarrow> None | r # _ \<Rightarrow> Some r)"

text \<open>The seed records, as code points. In Latin transliteration:
  Izuchaem Python (motivatsiya, ucheba, razvitie, praktika); Chistyj kod (professionalizm,
  kachestvo, struktura, luchshie praktiki); Avtostopom po galaktike (yumor,
  priklyucheniya, filosofiya, absurd); 1984 (antiutopiya, politika, kontrol,
  razmyshleniya); Master i Margarita (mistika, satira, dobro i zlo, klassika); Tri
  tovarishcha (druzhba, lyubov, poterya, melankholiya); Malenkij prints (filosofiya, deti,
  druzhba, prostye istiny).\<close>

definition initial_books :: "book list" where
  "initial_books =
    [
     \<lparr>book_id = None,
      title = [1048, 1079, 1091, 1095, 1072, 1077, 1084, 32, 80, 121, 116, 104, 111, 110],
      author = [1052, 1072, 1088, 1082, 32, 1051, 1091, 1090, 1094],
      tags = [[1084, 1086, 1090, 1080, 1074, 1072, 1094, 1080, 1103],
              [1091, 1095, 1077, 1073, 1072],
              [1088, 1072, 1079, 1074, 1080, 1090, 1080, 1077],
              [1087, 1088, 1072, 1082, 1090, 1080, 1082, 1072]]\<rparr>,
     \<lparr>book_id = None,
      title = [1063, 1080, 1089, 1090, 1099, 1081, 32, 1082, 1086, 1076],
      author = [1056, 1086, 1073, 1077, 1088, 1090, 32, 1052, 1072, 1088, 1090, 1080, 1085],
      tags = [[1087, 1088, 1086, 1092, 1077, 1089, 1089, 1080, 1086, 1085, 1072, 1083,
               1080, 1079, 1084],
              [1082, 1072, 1095, 1077, 1089, 1090, 1074, 1086],
              [1089, 1090, 1088, 1091, 1082, 1090, 1091, 1088, 1072],
              [1083, 1091, 1095, 1096, 1080, 1077, 32, 1087, 1088, 1072, 1082, 1090, 1080,
               1082, 1080]]\<rparr>,
     \<lparr>book_id = None,
      title = [1040, 1074, 1090, 1086, 1089, 1090, 1086, 1087, 1086, 1084, 32, 1087, 1086,
              32, 1075, 1072, 1083, 1072, 1082, 1090, 1080, 1082, 1077],
      author = [1044, 1091, 1075, 1083, 1072, 1089, 32, 1040, 1076, 1072, 1084, 1089],
      tags = [[1102, 1084, 1086, 1088],
              [1087, 1088, 1080, 1082, 1083, 1102, 1095, 1077, 1085, 1080, 1103],
              [1092, 1080, 1083, 1086, 1089, 1086, 1092, 1080, 1103],
              [1072, 1073, 1089, 1091, 1088, 1076]]\<rparr>,
     \<lparr>book_id = None,
      title = [49, 57, 56, 52],
      author = [1044, 1078, 1086, 1088, 1076, 1078, 32, 1054, 1088, 1091, 1101, 1083, 1083],
      tags = [[1072, 1085, 1090, 1080, 1091, 1090, 1086, 1087, 1080, 1103],
              [1087, 1086, 1083, 1080, 1090, 1080, 1082, 1072],
              [1082, 1086, 1085, 1090, 1088, 1086, 1083, 1100],
              [1088, 1072, 1079, 1084, 1099, 1096, 1083, 1077, 1085, 1080, 1103]]\<rparr>,
     \<lparr>book_id = None,
      title = [1052, 1072, 1089, 1090, 1077, 1088, 32, 1080, 32, 1052, 1072, 1088, 1075,
              1072, 1088, 1080, 1090, 1072],
      author = [1052, 1080, 1093, 1072, 1080, 1083, 32, 1041, 1091, 1083, 1075, 1072, 1082,
               1086, 1074],
      tags = [[1084, 1080, 1089, 1090, 1080, 1082, 1072],
              [1089, 1072, 1090, 1080, 1088, 1072],
              [1076, 1086, 1073, 1088, 1086, 32, 1080, 32, 1079, 1083, 1086],
              [1082, 1083, 1072, 1089, 1089, 1080, 1082, 1072]]\<rparr>,
     \<lparr>book_id = None,
      title = [1058, 1088, 1080, 32, 1090, 1086, 1074, 1072, 1088, 1080, 1097, 1072],
      author = [1069, 1088, 1080, 1093, 32, 1052, 1072, 1088, 1080, 1103, 32, 1056, 1077,
               1084, 1072, 1088, 1082],
      tags = [[1076, 1088, 1091, 1078, 1073, 1072],
              [1083, 1102, 1073, 1086, 1074, 1100],
              [1087, 1086, 1090, 1077, 1088, 1103],
              [1084, 1077, 1083, 1072, 1085, 1093, 1086, 1083, 1080, 1103]]\<rparr>,
     \<lparr>book_id = None,
      title = [1052, 1072, 1083, 1077, 1085, 1100, 1082, 1080, 1081, 32, 1087, 1088, 1080,
              1085, 1094],
      author = [1040, 1085, 1090, 1091, 1072, 1085, 32, 1076, 1077, 32, 1057, 1077, 1085,
               1090, 45, 1069, 1082, 1079, 1102, 1087, 1077, 1088, 1080],
      tags = [[1092, 1080, 1083, 1086, 1089, 1086, 1092, 1080, 1103],
              [1076, 1077, 1090, 1080],
              [1076, 1088, 1091, 1078, 1073, 1072],
              [1087, 1088, 1086, 1089, 1090, 1099, 1077, 32, 1080, 1089, 1090, 1080, 1085,
               1099]]\<rparr>]"

text \<open>\<open>create_db_and_tables\<close>: the seed records are added, in order, when the table has
  no first row.\<close>

definition create_db_and_tables :: "(book list \<Rightarrow> int) \<Rightarrow> book list \<Rightarrow> book list" where
  "create_db_and_tables assign_id rows =
     (case first rows of
        None \<Rightarrow> foldl (session_add assign_id) rows initial_books
      | Some existing_books \<Rightarrow> rows)"

section \<open>The form endpoint\<close>

text \<open>\<open>[tag.strip() for tag in tags.split(",") if tag.strip()] if tags else []\<close>;
  44 is the comma.\<close>

definition tags_list :: "str \<Rightarrow> str list" where
  "tags_list tags_field =
     (if tags_field \<noteq> [] then map strip (filter (\<lambda>tag. strip tag \<noteq> []) (split_sep 44 tags_field))
      else [])"

text \<open>\<open>create_book_via_form\<close>: the new table; the response is always the redirect.\<close>

definition create_book_via_form ::
  "(book list \<Rightarrow> int) \<Rightarrow> str \<Rightarrow> str \<Rightarrow> str \<Rightarrow> book list \<Rightarrow> book list" where
  "create_book_via_form assign_id title_field author_field tags_field rows =
     session_add assign_id rows
       \<lparr>book_id = None, title = title_field, author = author_field,
        tags = tags_list tags_field\<rparr>"

section \<open>The match score in the words of the specification\<close>

text \<open>The number of tokens of the lowercased query, each occurrence counted, that occur as
  a contiguous substring of the book's tags joined by single spaces and lowercased.\<close>

definition spec_match_score :: "(str \<Rightarrow> str) \<Rightarrow> str \<Rightarrow> book \<Rightarrow> int" where
  "spec_match_score lower query b =
     int (length (filter (\<lambda>token. \<exists>p s. lower (join [32] (tags b)) = p @ token @ s)
                         (split (lower query))))"

section \<open>The string operations\<close>

lemma str_in_iff: "str_in w t \<longleftrightarrow> (\<exists>p s. t = p @ w @ s)"
proof (induction t)
  case Nil
  then show ?case by auto
next
  case (Cons c cs)
  show ?case
  proof
    assume "str_in w (c # cs)"
    then consider "take (length w) (c # cs) = w" | "str_in w cs" by auto
    then show "\<exists>p s. c # cs = p @ w @ s"
    proof cases
      case 1
      then have "c # cs = [] @ w @ drop (length w) (c # cs)"
        by (metis append_Nil append_take_drop_id)
      then show ?thesis by blast
    next
      case 2
      then obtain p s where "cs = p @ w @ s" using Cons.IH by auto
      then have "c # cs = (c # p) @ w @ s" by simp
      then show ?thesis by blast
    qed
  next
    assume "\<exists>p s. c # cs = p @ w @ s"
    then obtain p s where ps: "c # cs = p @ w @ s" by auto
    show "str_in w (c # cs)"
    proof (cases p)
      case Nil
      then have "take (length w) (c # cs) = w" using ps by simp
      then show ?thesis by simp
    next
      case (Cons a p')
      then have "cs = p' @ w @ s" using ps by simp
      then have "str_in w cs" using Cons.IH by blast
      then show ?thesis by simp
    qed
  qed
qed

lemma sum_ones: "sum_list (map (\<lambda>w. (1::int)) xs) = int (length xs)"
  by (induction xs) auto

lemma match_score_count:
  "match_score lower qw b = int (length (filter (\<lambda>w. \<exists>p s. tags_text lower b = p @ w @ s) qw))"
  by (simp add: match_score_def sum_ones str_in_iff)

lemma split_from_nonempty: "w \<in> set (split_from cur s) \<Longrightarrow> w \<noteq> []"
  by (induction s arbitrary: cur) (auto split: if_splits)

lemma split_from_nospace:
  "\<forall>c\<in>set cur. \<not> isspace c \<Longrightarrow> \<forall>w\<in>set (split_from cur s). \<forall>c\<in>set w. \<not> isspace c"
proof (induction s arbitrary: cur)
  case Nil
  then show ?case by simp
next
  case (Cons c cs)
  have rest: "\<forall>w\<in>set (split_from [] cs). \<forall>c\<in>set w. \<not> isspace c"
    using Cons.IH [of "[]"] by simp
  show ?case
  proof (cases "isspace c")
    case True
    then show ?thesis using rest Cons.prems by simp
  next
    case False
    then have "\<forall>x\<in>set (cur @ [c]). \<not> isspace x" using Cons.prems by auto
    from Cons.IH [OF this] show ?thesis using False by simp
  qed
qed

lemma concat_split_from: "concat (split_from cur s) = cur @ filter (\<lambda>c. \<not> isspace c) s"
  by (induction s arbitrary: cur) auto

lemma split_from_word:
  "\<forall>c\<in>set w. \<not> isspace c \<Longrightarrow> split_from cur (w @ s) = split_from (cur @ w) s"
  by (induction w arbitrary: cur) auto

lemma split_from_spaces:
  "\<forall>c\<in>set sp. isspace c \<Longrightarrow> split_from [] (sp @ s) = split_from [] s"
  by (induction sp) auto

lemma split_sep_from_not_Nil: "split_sep_from sep cur s \<noteq> []"
  by (induction s arbitrary: cur) auto

lemma join_Cons: "ys \<noteq> [] \<Longrightarrow> join sep (x # ys) = x @ sep @ join sep ys"
  by (cases ys) auto

lemma split_sep_join: "join [sep] (split_sep_from sep cur s) = cur @ s"
  by (induction s arbitrary: cur) (auto simp: join_Cons split_sep_from_not_Nil)

lemma split_sep_from_no_sep:
  "sep \<notin> set cur \<Longrightarrow> \<forall>p\<in>set (split_sep_from sep cur s). sep \<notin> set p"
proof (induction s arbitrary: cur)
  case Nil
  then show ?case by simp
next
  case (Cons c cs)
  have rest: "\<forall>p\<in>set (split_sep_from sep [] cs). sep \<notin> set p"
    using Cons.IH [of "[]"] by simp
  show ?case
  proof (cases "c = sep")
    case True
    then show ?thesis using rest Cons.prems by simp
  next
    case False
    then have "sep \<notin> set (cur @ [c])" using Cons.prems by auto
    from Cons.IH [OF this] show ?thesis using False by simp
  qed
qed

lemma dropWhile_all: "(\<forall>x\<in>set (dropWhile P s). P x) \<longleftrightarrow> (\<forall>x\<in>set s. P x)"
  by (induction s) auto

lemma strip_Nil_iff: "strip s = [] \<longleftrightarrow> (\<forall>c\<in>set s. isspace c)"
  by (simp add: strip_def dropWhile_eq_Nil_conv dropWhile_all)

section \<open>The loop over the books\<close>

lemma match_score_nonneg: "0 \<le> match_score lower qw b"
  by (simp add: match_score_count)

lemma match_score_le: "match_score lower qw b \<le> int (length qw)"
  by (simp add: match_score_count)

lemma loop_body_cases:
  "loop_body lower qw (best, sc) b =
     (if tags b \<noteq> [] \<and> sc < match_score lower qw b then (Some b, match_score lower qw b)
      else (best, sc))"
  by (simp add: loop_body_def)

lemma loop_keep:
  "\<forall>b\<in>set bs. tags b \<noteq> [] \<longrightarrow> match_score lower qw b \<le> snd st \<Longrightarrow>
   foldl (loop_body lower qw) st bs = st"
  by (induction bs arbitrary: st) (auto simp: loop_body_def)

lemma loop_below:
  "snd st < m \<Longrightarrow> \<forall>b\<in>set bs. tags b \<noteq> [] \<longrightarrow> match_score lower qw b < m \<Longrightarrow>
   snd (foldl (loop_body lower qw) st bs) < m"
  by (induction bs arbitrary: st) (simp_all add: loop_body_def)


lemma loop_Some:
  "fst (foldl (loop_body lower qw) st bs) = Some b \<Longrightarrow>
   fst st = Some b \<or> (b \<in> set bs \<and> tags b \<noteq> [])"
proof (induction bs arbitrary: st)
  case Nil
  then show ?case by simp
next
  case (Cons x bs)
  let ?st' = "loop_body lower qw st x"
  from Cons.prems have "fst (foldl (loop_body lower qw) ?st' bs) = Some b" by simp
  from Cons.IH [OF this] consider "fst ?st' = Some b" | "b \<in> set bs \<and> tags b \<noteq> []" by blast
  then show ?case
  proof cases
    case 1
    then show ?thesis by (auto simp: loop_body_def split: if_splits)
  next
    case 2
    then show ?thesis by simp
  qed
qed

lemma loop_first_max:
  assumes i: "i < length bs"
    and tg: "tags (bs ! i) \<noteq> []"
    and st: "snd st < match_score lower qw (bs ! i)"
    and before: "\<forall>j<i. tags (bs ! j) \<noteq> [] \<longrightarrow> match_score lower qw (bs ! j) < match_score lower qw (bs ! i)"
    and every: "\<forall>j<length bs. tags (bs ! j) \<noteq> [] \<longrightarrow> match_score lower qw (bs ! j) \<le> match_score lower qw (bs ! i)"
  shows "foldl (loop_body lower qw) st bs = (Some (bs ! i), match_score lower qw (bs ! i))"
proof -
  let ?m = "match_score lower qw (bs ! i)"
  let ?f = "loop_body lower qw"
  have split: "bs = take i bs @ bs ! i # drop (Suc i) bs"
    using i by (simp add: id_take_nth_drop)
  have pre: "\<forall>b\<in>set (take i bs). tags b \<noteq> [] \<longrightarrow> match_score lower qw b < ?m"
  proof
    fix b assume "b \<in> set (take i bs)"
    then obtain j where "j < i" "b = bs ! j"
      using i by (auto simp: in_set_conv_nth)
    with before show "tags b \<noteq> [] \<longrightarrow> match_score lower qw b < ?m" by simp
  qed
  have post: "\<forall>b\<in>set (drop (Suc i) bs). tags b \<noteq> [] \<longrightarrow> match_score lower qw b \<le> ?m"
  proof
    fix b assume "b \<in> set (drop (Suc i) bs)"
    then have "b \<in> set bs" by (rule in_set_dropD)
    then obtain j where "j < length bs" "b = bs ! j" by (auto simp: in_set_conv_nth)
    with every show "tags b \<noteq> [] \<longrightarrow> match_score lower qw b \<le> ?m" by simp
  qed
  have "snd (foldl ?f st (take i bs)) < ?m"
    using st pre by (rule loop_below)
  then have at_i: "?f (foldl ?f st (take i bs)) (bs ! i) = (Some (bs ! i), ?m)"
    using tg by (simp add: loop_body_def)
  have "foldl ?f st bs = foldl ?f (?f (foldl ?f st (take i bs)) (bs ! i)) (drop (Suc i) bs)"
    by (subst split) (simp only: foldl_append foldl_Cons)
  also have "\<dots> = foldl ?f (Some (bs ! i), ?m) (drop (Suc i) bs)"
    by (simp only: at_i)
  also have "\<dots> = (Some (bs ! i), ?m)"
    using post by (intro loop_keep) simp
  finally show ?thesis .
qed

lemma split_nonempty: "\<forall>w\<in>set (split s). w \<noteq> []"
  using split_from_nonempty by (auto simp: split_def)

lemma match_score_no_tags:
  assumes "tags b = []" and "lower [] = []" and "\<forall>w\<in>set qw. w \<noteq> []"
  shows "match_score lower qw b = 0"
proof -
  have "tags_text lower b = []" using assms(1,2) by (simp add: tags_text_def)
  then have "filter (\<lambda>w. str_in w (tags_text lower b)) qw = []"
    using assms(3) by (simp add: filter_empty_conv)
  then show ?thesis by (simp add: match_score_def)
qed

lemma loop_unguarded:
  assumes "lower [] = []" and "\<forall>w\<in>set qw. w \<noteq> []"
  shows "0 \<le> snd st \<Longrightarrow>
    foldl (loop_body lower qw) st bs =
    foldl (\<lambda>st b. if snd st < match_score lower qw b then (Some b, match_score lower qw b) else st) st bs"
proof (induction bs arbitrary: st)
  case Nil
  show ?case by simp
next
  case (Cons b bs)
  let ?g = "\<lambda>st b. if snd st < match_score lower qw b then (Some b, match_score lower qw b) else st"
  have step: "loop_body lower qw st b = ?g st b"
  proof (cases "tags b = []")
    case True
    then have "match_score lower qw b = 0" using assms by (rule match_score_no_tags)
    with True Cons.prems show ?thesis by (simp add: loop_body_def)
  next
    case False
    then show ?thesis by (simp add: loop_body_def)
  qed
  have "0 \<le> snd (?g st b)" using Cons.prems by simp
  from Cons.IH [OF this] show ?case by (simp add: step)
qed

lemma spec_match_score_eq:
  "match_score lower (split (lower q)) b = spec_match_score lower q b"
  by (simp add: match_score_count spec_match_score_def tags_text_def)

lemma lower_basic_fix:
  "\<forall>c\<in>set s. c = 32 \<or> (1072 \<le> c \<and> c \<le> 1103) \<Longrightarrow> lower_basic s = s"
  unfolding lower_basic_def by (rule map_idI) (auto simp: lower_cp_def)

section \<open>Storage and form parsing\<close>

lemma foldl_session_add_fields:
  "map (\<lambda>b. (title b, author b, tags b)) (foldl (session_add assign_id) rows bs) =
   map (\<lambda>b. (title b, author b, tags b)) rows @ map (\<lambda>b. (title b, author b, tags b)) bs"
  by (induction bs arbitrary: rows) (simp_all add: session_add_def)

lemma foldl_session_add_length:
  "length (foldl (session_add assign_id) rows bs) = length rows + length bs"
  by (induction bs arbitrary: rows) (simp_all add: session_add_def)

lemma tags_list_filter:
  "tags_list tags_field = filter (\<lambda>t. t \<noteq> []) (map strip (split_sep 44 tags_field))"
proof (cases "tags_field = []")
  case True
  then show ?thesis by (simp add: tags_list_def split_sep_def strip_def)
next
  case False
  then show ?thesis by (simp add: tags_list_def filter_map comp_def)
qed

section \<open>The seed scenario, token by token\<close>

text \<open>The query \<open>khochu motivatsiyu i praktiku\<close> has four tokens. Against the seed books
  only the one-letter token \<open>i\<close> occurs in any joined tag text, and it occurs in all
  seven; the inflected forms \<open>motivatsiyu\<close> and \<open>praktiku\<close> are not substrings of the
  tags \<open>motivatsiya\<close> and \<open>praktika\<close>.\<close>

lemma seed_scores:
  assumes lower_fix: "\<And>s. \<forall>c\<in>set s. c = 32 \<or> (1072 \<le> c \<and> c \<le> 1103) \<Longrightarrow> lower s = s"
  shows "split (lower [1093, 1086, 1095, 1091, 32, 1084, 1086, 1090, 1080, 1074, 1072, 1094, 1080,
                       1102, 32, 1080, 32, 1087, 1088, 1072, 1082, 1090, 1080, 1082, 1091]) =
           [[1093, 1086, 1095, 1091], [1084, 1086, 1090, 1080, 1074, 1072, 1094, 1080, 1102],
            [1080], [1087, 1088, 1072, 1082, 1090, 1080, 1082, 1091]]"
    and "map (match_score lower [[1093, 1086, 1095, 1091],
                                 [1084, 1086, 1090, 1080, 1074, 1072, 1094, 1080, 1102]])
             initial_books = [0, 0, 0, 0, 0, 0, 0]"
    and "map (match_score lower [[1080]]) initial_books = [1, 1, 1, 1, 1, 1, 1]"
    and "map (match_score lower [[1087, 1088, 1072, 1082, 1090, 1080, 1082, 1091]])
             initial_books = [0, 0, 0, 0, 0, 0, 0]"
  by (simp_all add: initial_books_def isspace_def lower_fix split_def match_score_def tags_text_def)

section \<open>The claims about the recommendation function\<close>

text \<open>
  Claim C1. For a query that is not empty after trimming, the score the recommendation
  compares for a book is the number of tokens of the lowercased, whitespace-split query
  (each occurrence of a repeated token counted) that occur as a contiguous substring in
  the book's tags joined by single spaces and lowercased. A token counts once per book
  however many tags contain it, so the score is at most the number of tokens. The
  lowering function is assumed to map the empty string to the empty string, as
  \<open>str.lower\<close> does; then skipping a book without tags is the same as scoring it 0.
\<close>

theorem match_score_counts_tokens:
  "match_score lower (split (lower user_query)) b = spec_match_score lower user_query b
   \<and> spec_match_score lower user_query b \<le> int (length (split (lower user_query)))
   \<and> (strip user_query \<noteq> [] \<and> lower [] = [] \<longrightarrow>
        recommend_book_simple lower user_query all_books =
          fst (foldl (\<lambda>st b. if snd st < spec_match_score lower user_query b
                              then (Some b, spec_match_score lower user_query b) else st)
                     (None, 0) all_books))"
proof (intro conjI impI)
  show "match_score lower (split (lower user_query)) b = spec_match_score lower user_query b"
    by (rule spec_match_score_eq)
next
  show "spec_match_score lower user_query b \<le> int (length (split (lower user_query)))"
    by (simp add: spec_match_score_def)
next
  assume pre: "strip user_query \<noteq> [] \<and> lower [] = []"
  then have ne: "user_query \<noteq> []" by (auto simp: strip_def)
  have "foldl (loop_body lower (split (lower user_query))) (None, 0) all_books =
        foldl (\<lambda>st b. if snd st < match_score lower (split (lower user_query)) b
                        then (Some b, match_score lower (split (lower user_query)) b) else st)
              (None, 0) all_books"
    using conjunct2 [OF pre] split_nonempty by (rule loop_unguarded) simp
  then have "foldl (loop_body lower (split (lower user_query))) (None, 0) all_books =
        foldl (\<lambda>st b. if snd st < spec_match_score lower user_query b
                               then (Some b, spec_match_score lower user_query b) else st)
              (None, 0) all_books"
    by (simp only: spec_match_score_eq)
  then show "recommend_book_simple lower user_query all_books =
           fst (foldl (\<lambda>st b. if snd st < spec_match_score lower user_query b
                               then (Some b, spec_match_score lower user_query b) else st)
                      (None, 0) all_books)"
    using pre ne by (simp only: recommend_book_simple_def) simp
qed

text \<open>The query \<open>a a z\<close> against one book tagged \<open>ba\<close>, \<open>a\<close>: both occurrences of \<open>a\<close> count, once each.\<close>

theorem match_score_counts_tokens_witness:
  "strip [97, 32, 97, 32, 122] \<noteq> [] \<and> lower_basic [] = [] \<and>
   recommend_book_simple lower_basic [97, 32, 97, 32, 122]
     [\<lparr>book_id = Some 1, title = [84], author = [65], tags = [[98, 97], [97]]\<rparr>] =
   Some \<lparr>book_id = Some 1, title = [84], author = [65], tags = [[98, 97], [97]]\<rparr> \<and>
   spec_match_score lower_basic [97, 32, 97, 32, 122]
     \<lparr>book_id = Some 1, title = [84], author = [65], tags = [[98, 97], [97]]\<rparr> = 2"
proof -
  have h1: "strip [97, 32, 97, 32, 122] \<noteq> []" by (simp add: strip_def isspace_def)
  have h2: "lower_basic [] = []" by (simp add: lower_basic_def)
  have sc: "match_score lower_basic (split (lower_basic [97, 32, 97, 32, 122]))
     \<lparr>book_id = Some 1, title = [84], author = [65], tags = [[98, 97], [97]]\<rparr> = 2"
    by (simp add: match_score_def tags_text_def split_def lower_basic_def lower_cp_def isspace_def)
  show ?thesis
    using match_score_counts_tokens [where lower = lower_basic
        and user_query = "[97, 32, 97, 32, 122]"
        and all_books = "[\<lparr>book_id = Some 1, title = [84], author = [65], tags = [[98, 97], [97]]\<rparr>]"
        and b = "\<lparr>book_id = Some 1, title = [84], author = [65], tags = [[98, 97], [97]]\<rparr>"]
      h1 h2 sc
    by simp
qed

text \<open>
  Claim C2. On the seven seed books in their insertion order, the query
  \<open>khochu motivatsiyu i praktiku\<close> (given as code points) returns the first seed book,
  titled \<open>Izuchaem Python\<close>, with the tags \<open>motivatsiya, ucheba, razvitie, praktika\<close>.
  The lowering function is only assumed to leave strings of lowercase Cyrillic letters
  and spaces unchanged. Every seed book scores 1 here, through the token \<open>i\<close> alone
  (\<open>seed_scores\<close>), and the first one is kept.
\<close>

theorem seed_recommendation:
  assumes lower_fix: "\<And>s. \<forall>c\<in>set s. c = 32 \<or> (1072 \<le> c \<and> c \<le> 1103) \<Longrightarrow> lower s = s"
  shows "recommend_book_simple lower
           [1093, 1086, 1095, 1091, 32, 1084, 1086, 1090, 1080, 1074, 1072, 1094, 1080, 1102, 32,
            1080, 32, 1087, 1088, 1072, 1082, 1090, 1080, 1082, 1091]
           (create_db_and_tables assign_id []) =
         Some \<lparr>book_id = Some (assign_id []),
               title = [1048, 1079, 1091, 1095, 1072, 1077, 1084, 32, 80, 121, 116, 104, 111, 110],
               author = [1052, 1072, 1088, 1082, 32, 1051, 1091, 1090, 1094],
               tags = [[1084, 1086, 1090, 1080, 1074, 1072, 1094, 1080, 1103],
                       [1091, 1095, 1077, 1073, 1072],
                       [1088, 1072, 1079, 1074, 1080, 1090, 1080, 1077],
                       [1087, 1088, 1072, 1082, 1090, 1080, 1082, 1072]]\<rparr>"
  by (simp add: recommend_book_simple_def create_db_and_tables_def first_def initial_books_def
      session_add_def strip_def isspace_def lower_fix split_def loop_body_def match_score_def
      tags_text_def)

theorem seed_recommendation_witness:
  "map_option title (recommend_book_simple lower_basic
           [1093, 1086, 1095, 1091, 32, 1084, 1086, 1090, 1080, 1074, 1072, 1094, 1080, 1102, 32,
            1080, 32, 1087, 1088, 1072, 1082, 1090, 1080, 1082, 1091]
           (create_db_and_tables (\<lambda>rows. int (length rows) + 1) [])) =
   Some [1048, 1079, 1091, 1095, 1072, 1077, 1084, 32, 80, 121, 116, 104, 111, 110]"
  using seed_recommendation [where lower = lower_basic
      and assign_id = "\<lambda>rows. int (length rows) + 1", OF lower_basic_fix]
  by simp

text \<open>
  Claim C3. A book replaces the current best exactly when it has tags and its match score is
  strictly greater than the best score so far. Hence, for a query that is not empty after
  trimming, if the book at position \<open>i\<close> has a positive score, no scored book has a greater
  one, and no earlier scored book has the same one, then the book at position \<open>i\<close> is
  returned: among books of equal maximal score the earliest wins.
\<close>

theorem strict_improvement_first_max:
  "loop_body lower query_words (best_book, best_match_score) b =
     (if tags b \<noteq> [] \<and> best_match_score < match_score lower query_words b
      then (Some b, match_score lower query_words b) else (best_book, best_match_score))
   \<and> (strip user_query \<noteq> [] \<and> i < length all_books \<and> tags (all_books ! i) \<noteq> [] \<and>
       0 < match_score lower (split (lower user_query)) (all_books ! i) \<and>
       (\<forall>j<length all_books. tags (all_books ! j) \<noteq> [] \<longrightarrow>
           match_score lower (split (lower user_query)) (all_books ! j)
             \<le> match_score lower (split (lower user_query)) (all_books ! i)) \<and>
       (\<forall>j<i. tags (all_books ! j) \<noteq> [] \<longrightarrow>
           match_score lower (split (lower user_query)) (all_books ! j)
             \<noteq> match_score lower (split (lower user_query)) (all_books ! i))
       \<longrightarrow> recommend_book_simple lower user_query all_books = Some (all_books ! i))"
proof (intro conjI impI)
  show "loop_body lower query_words (best_book, best_match_score) b =
     (if tags b \<noteq> [] \<and> best_match_score < match_score lower query_words b
      then (Some b, match_score lower query_words b) else (best_book, best_match_score))"
    by (simp add: loop_body_def)
next
  let ?qw = "split (lower user_query)"
  let ?m = "match_score lower ?qw (all_books ! i)"
  assume pre: "strip user_query \<noteq> [] \<and> i < length all_books \<and> tags (all_books ! i) \<noteq> [] \<and>
       0 < ?m \<and>
       (\<forall>j<length all_books. tags (all_books ! j) \<noteq> [] \<longrightarrow>
           match_score lower ?qw (all_books ! j) \<le> ?m) \<and>
       (\<forall>j<i. tags (all_books ! j) \<noteq> [] \<longrightarrow> match_score lower ?qw (all_books ! j) \<noteq> ?m)"
  then have blank: "strip user_query \<noteq> []" and i: "i < length all_books"
    and tg: "tags (all_books ! i) \<noteq> []" and pos: "0 < ?m"
    and every: "\<forall>j<length all_books. tags (all_books ! j) \<noteq> [] \<longrightarrow>
           match_score lower ?qw (all_books ! j) \<le> ?m"
    and differ: "\<forall>j<i. tags (all_books ! j) \<noteq> [] \<longrightarrow> match_score lower ?qw (all_books ! j) \<noteq> ?m"
    by blast+
  have ne: "user_query \<noteq> []" using blank by (auto simp: strip_def)
  have before: "\<forall>j<i. tags (all_books ! j) \<noteq> [] \<longrightarrow> match_score lower ?qw (all_books ! j) < ?m"
  proof (intro allI impI)
    fix j assume j: "j < i" and t: "tags (all_books ! j) \<noteq> []"
    then have "j < length all_books" using i by simp
    with every t have "match_score lower ?qw (all_books ! j) \<le> ?m" by simp
    moreover from differ j t have "match_score lower ?qw (all_books ! j) \<noteq> ?m" by simp
    ultimately show "match_score lower ?qw (all_books ! j) < ?m" by simp
  qed
  have start: "snd (None :: book option, 0 :: int) < ?m" using pos by simp
  have "foldl (loop_body lower ?qw) (None, 0) all_books = (Some (all_books ! i), ?m)"
    using i tg start before every by (rule loop_first_max)
  then show "recommend_book_simple lower user_query all_books = Some (all_books ! i)"
    using blank ne by (simp add: recommend_book_simple_def)
qed

text \<open>Query \<open>a\<close>; tags \<open>z\<close>, then \<open>ab\<close>, then \<open>a\<close>: the second and third book both score 1, the second is returned.\<close>

theorem strict_improvement_first_max_witness:
  "strip [97] \<noteq> [] \<and>
   recommend_book_simple lower_basic [97]
     [\<lparr>book_id = Some 1, title = [78], author = [65], tags = [[122]]\<rparr>,
      \<lparr>book_id = Some 2, title = [79], author = [65], tags = [[97, 98]]\<rparr>,
      \<lparr>book_id = Some 3, title = [80], author = [65], tags = [[97]]\<rparr>] =
   Some \<lparr>book_id = Some 2, title = [79], author = [65], tags = [[97, 98]]\<rparr>"
proof -
  let ?bs = "[\<lparr>book_id = Some 1, title = [78], author = [65], tags = [[122]]\<rparr>,
      \<lparr>book_id = Some 2, title = [79], author = [65], tags = [[97, 98]]\<rparr>,
      \<lparr>book_id = Some 3, title = [80], author = [65], tags = [[97]]\<rparr>]"
  have h1: "strip [97] \<noteq> []" by (simp add: strip_def isspace_def)
  have qw: "split (lower_basic [97]) = [[97]]"
    by (simp add: split_def lower_basic_def lower_cp_def isspace_def)
  have s0: "match_score lower_basic [[97]] (?bs ! 0) = 0"
    by (simp add: match_score_def tags_text_def lower_basic_def lower_cp_def)
  have s1: "match_score lower_basic [[97]] (?bs ! 1) = 1"
    by (simp add: match_score_def tags_text_def lower_basic_def lower_cp_def)
  have s2: "match_score lower_basic [[97]] (?bs ! 2) = 1"
    by (simp add: match_score_def tags_text_def lower_basic_def lower_cp_def)
  have every: "\<forall>j<length ?bs. tags (?bs ! j) \<noteq> [] \<longrightarrow>
      match_score lower_basic [[97]] (?bs ! j) \<le> match_score lower_basic [[97]] (?bs ! 1)"
  proof (intro allI impI)
    fix j assume "j < length ?bs"
    then consider "j = 0" | "j = 1" | "j = 2" by fastforce
    then show "match_score lower_basic [[97]] (?bs ! j) \<le> match_score lower_basic [[97]] (?bs ! 1)"
    proof cases
      case 1
      then show ?thesis using s0 s1 by simp
    next
      case 2
      then show ?thesis by simp
    next
      case 3
      then show ?thesis using s1 s2 by simp
    qed
  qed
  have before: "\<forall>j<1. tags (?bs ! j) \<noteq> [] \<longrightarrow>
      match_score lower_basic [[97]] (?bs ! j) \<noteq> match_score lower_basic [[97]] (?bs ! 1)"
    using s0 s1 by simp
  have "recommend_book_simple lower_basic [97] ?bs = Some (?bs ! 1)"
    using strict_improvement_first_max [where lower = lower_basic and user_query = "[97]"
        and all_books = ?bs and i = 1] h1 qw s1 every before
    by simp
  with h1 show ?thesis by simp
qed



text \<open>
  Claim C5. When the query is empty or consists only of whitespace, the recommendation is
  none for every list of books. The function has no failing branch: this is an ordinary
  result, and neither the lowering function nor the books are consulted.
\<close>

theorem blank_query_none:
  assumes "user_query = [] \<or> (\<forall>c\<in>set user_query. isspace c)"
  shows "recommend_book_simple lower user_query all_books = None"
proof -
  from assms have "\<forall>c\<in>set user_query. isspace c" by auto
  then have "strip user_query = []" by (simp add: strip_Nil_iff)
  then show ?thesis by (simp add: recommend_book_simple_def)
qed

theorem blank_query_none_witness:
  "isspace 32 \<and> isspace 9 \<and>
   recommend_book_simple lower_basic [32, 9, 32] initial_books = None \<and>
   recommend_book_simple lower_basic [] initial_books = None"
proof -
  have h: "\<forall>c\<in>set [32, 9, 32]. isspace c" by (simp add: isspace_def)
  show ?thesis
    using blank_query_none [where user_query = "[32, 9, 32]" and lower = lower_basic
        and all_books = initial_books]
      blank_query_none [where user_query = "[]" and lower = lower_basic
        and all_books = initial_books] h
    by simp
qed

text \<open>
  Claim C6. A book whose list of tags is empty leaves the loop state unchanged and is never
  the book returned, for every query and every list of books.
\<close>

theorem empty_tags_never_recommended:
  assumes "tags b = []"
  shows "loop_body lower query_words st b = st
         \<and> recommend_book_simple lower user_query all_books \<noteq> Some b"
proof -
  have "recommend_book_simple lower user_query all_books \<noteq> Some b"
  proof
    assume r: "recommend_book_simple lower user_query all_books = Some b"
    then have "fst (foldl (loop_body lower (split (lower user_query))) (None, 0) all_books) = Some b"
      by (simp add: recommend_book_simple_def split: if_splits)
    from loop_Some [OF this] have "tags b \<noteq> []" by simp
    with assms show False by simp
  qed
  then show ?thesis using assms by (simp add: loop_body_def)
qed

theorem empty_tags_never_recommended_witness:
  "tags \<lparr>book_id = Some 3, title = [80], author = [65], tags = []\<rparr> = [] \<and>
   recommend_book_simple lower_basic [97]
     [\<lparr>book_id = Some 3, title = [80], author = [65], tags = []\<rparr>,
      \<lparr>book_id = Some 2, title = [79], author = [65], tags = [[97, 98]]\<rparr>] \<noteq>
   Some \<lparr>book_id = Some 3, title = [80], author = [65], tags = []\<rparr>"
  using empty_tags_never_recommended [where lower = lower_basic and user_query = "[97]"
      and b = "\<lparr>book_id = Some 3, title = [80], author = [65], tags = []\<rparr>"
      and all_books = "[\<lparr>book_id = Some 3, title = [80], author = [65], tags = []\<rparr>,
      \<lparr>book_id = Some 2, title = [79], author = [65], tags = [[97, 98]]\<rparr>]"]
  by simp

text \<open>
  Claim C10. For every query string, the recommendation over the empty list of books is
  none.
\<close>

theorem recommend_no_books: "recommend_book_simple lower user_query [] = None"
  by (simp add: recommend_book_simple_def)

section \<open>The claims about the form endpoint and the bootstrap\<close>

text \<open>
  Claim C7. The form endpoint stores as tags the pieces of the field between commas, each
  trimmed, without the pieces that are empty after trimming. The field \<open>x, y ,  z\<close>
  gives the tags \<open>x\<close>, \<open>y\<close>, \<open>z\<close>, and the empty field gives no tags.
\<close>

theorem tags_list_parses:
  "tags_list tags_field = filter (\<lambda>t. t \<noteq> []) (map strip (split_sep 44 tags_field))
   \<and> tags_list [120, 44, 32, 121, 32, 44, 32, 32, 122] = [[120], [121], [122]]
   \<and> tags_list [] = []
   \<and> tags (last (create_book_via_form assign_id title_field author_field
                    [120, 44, 32, 121, 32, 44, 32, 32, 122] rows)) = [[120], [121], [122]]
   \<and> tags (last (create_book_via_form assign_id title_field author_field [] rows)) = []"
proof -
  have xyz: "tags_list [120, 44, 32, 121, 32, 44, 32, 32, 122] = [[120], [121], [122]]"
    by (simp add: tags_list_def split_sep_def strip_def isspace_def)
  have empty: "tags_list [] = []" by (simp add: tags_list_def)
  have stored: "tags (last (create_book_via_form assign_id title_field author_field field rows)) =
      tags_list field" for field
    by (simp add: create_book_via_form_def session_add_def)
  from tags_list_filter xyz empty stored show ?thesis by simp
qed

text \<open>
  Claim C8. On a table without rows the bootstrap stores exactly the seven seed records, in
  their order, with their titles, authors and tags; on a table with at least one row it
  stores nothing. A second bootstrap after the first therefore changes nothing.
\<close>

theorem bootstrap_seeds_once:
  "map (\<lambda>b. (title b, author b, tags b)) (create_db_and_tables assign_id []) =
     map (\<lambda>b. (title b, author b, tags b)) initial_books
   \<and> length (create_db_and_tables assign_id []) = 7
   \<and> (rows \<noteq> [] \<longrightarrow> create_db_and_tables assign_id rows = rows)
   \<and> create_db_and_tables assign_id (create_db_and_tables assign_id []) =
       create_db_and_tables assign_id []"
proof -
  have fresh: "create_db_and_tables assign_id [] = foldl (session_add assign_id) [] initial_books"
    by (simp add: create_db_and_tables_def first_def)
  have seven: "length initial_books = 7" by (simp add: initial_books_def)
  have len: "length (create_db_and_tables assign_id []) = 7"
    by (simp add: fresh foldl_session_add_length seven)
  have keep: "create_db_and_tables assign_id xs = xs" if "xs \<noteq> []" for xs
    using that by (cases xs) (simp_all add: create_db_and_tables_def first_def)
  have "create_db_and_tables assign_id [] \<noteq> []" using len by auto
  then have again: "create_db_and_tables assign_id (create_db_and_tables assign_id []) =
       create_db_and_tables assign_id []" by (rule keep)
  have fields: "map (\<lambda>b. (title b, author b, tags b)) (create_db_and_tables assign_id []) =
     map (\<lambda>b. (title b, author b, tags b)) initial_books"
    by (simp add: fresh foldl_session_add_fields)
  from fields len keep again show ?thesis by simp
qed

theorem bootstrap_seeds_once_witness:
  "length (create_db_and_tables (\<lambda>rows. int (length rows) + 1) []) = 7 \<and>
   create_db_and_tables (\<lambda>rows. int (length rows) + 1)
     [\<lparr>book_id = Some 5, title = [84], author = [65], tags = []\<rparr>] =
     [\<lparr>book_id = Some 5, title = [84], author = [65], tags = []\<rparr>]"
  using bootstrap_seeds_once [where assign_id = "\<lambda>rows. int (length rows) + 1"
      and rows = "[\<lparr>book_id = Some 5, title = [84], author = [65], tags = []\<rparr>]"]
  by simp

end
